theory Spec2Isabelle
  imports Main
begin

section \<open>Data model\<close>

text \<open>
  The repository is a logging interface (\<open>ILogger.hpp\<close>), its one implementation and the
  factory (\<open>ConsoleLogger.cpp\<close>, \<open>LoggerFactory.hpp\<close>) and the entry point (\<open>main.cpp\<close>).

  A message is a \<open>std::string_view\<close>: a sequence of bytes. \<^typ>\<open>string\<close> is a list of
  \<^typ>\<open>char\<close>, and a \<^typ>\<open>char\<close> is one byte, so a message is a \<^typ>\<open>string\<close>.

  Objects live in a store: a list of pairs of an address and the object there. A
  \<open>std::unique_ptr<ILogger>\<close> is an optional address, \<^term>\<open>None\<close> being \<open>nullptr\<close>.
  \<open>ConsoleLogger\<close> is the only class of the repository that derives from \<open>ILogger\<close>; it
  declares no data member, so the object at an address is described by its dynamic type.
\<close>

type_synonym addr = nat

type_synonym ILogger_ptr = "addr option"

datatype ILogger_obj = ConsoleLogger

text \<open>
  What \<open>operator new\<close> returns is not decided by the repository: the allocator is a
  parameter, a function from the addresses in use to the address it hands out. Its
  failure (\<open>std::bad_alloc\<close>) is outside the scope: the development covers the runs in
  which the allocation succeeds.
\<close>

type_synonym allocator = "addr list \<Rightarrow> addr"

text \<open>
  Errors as values: \<open>runtime_error\<close> is the exception \<open>LoggerFactory.hpp\<close> documents,
  \<open>invalid_pointer\<close> is a call through a pointer that is null or owns no object.
\<close>

datatype error = runtime_error | invalid_pointer

text \<open>
  The calls made so far, kept for the statements about how often something is called:
  the factory with the pointer it returned, \<open>log\<close> with the object and the message, and
  the destruction of an object.
\<close>

datatype call = Created ILogger_ptr | Logged addr string | Destroyed addr

text \<open>
  The state of the process: the bytes inserted into \<open>std::cout\<close> so far, the store of
  logger objects, and the calls made.
\<close>

record process =
  cout :: string
  heap :: "(addr \<times> ILogger_obj) list"
  history :: "call list"

definition process_start :: process where
  "process_start = \<lparr>cout = [], heap = [], history = []\<rparr>"

section \<open>The console logger (ConsoleLogger.cpp)\<close>

text \<open>\<open>std::cout << message\<close>: the bytes of the message are inserted into the stream.\<close>

definition ostream_write :: "string \<Rightarrow> process \<Rightarrow> process" where
  "ostream_write bytes s = s\<lparr>cout := cout s @ bytes\<rparr>"

text \<open>\<open>std::cout << '\n'\<close>: one character is inserted.\<close>

definition ostream_put :: "char \<Rightarrow> process \<Rightarrow> process" where
  "ostream_put c s = s\<lparr>cout := cout s @ [c]\<rparr>"

text \<open>\<open>void log(std::string_view message) override { std::cout << message << '\n'; }\<close>\<close>

definition ConsoleLogger_log :: "string \<Rightarrow> process \<Rightarrow> process" where
  "ConsoleLogger_log message s = ostream_put (CHR 0x0A) (ostream_write message s)"

text \<open>
  \<open>logger->log(message)\<close>: the pointer is dereferenced and the virtual call goes to the
  dynamic type of the object.
\<close>

definition ILogger_log :: "ILogger_ptr \<Rightarrow> string \<Rightarrow> process \<Rightarrow> error + process" where
  "ILogger_log p message s =
     (case p of
        None \<Rightarrow> Inl invalid_pointer
      | Some a \<Rightarrow>
          (case map_of (heap s) a of
             None \<Rightarrow> Inl invalid_pointer
           | Some ConsoleLogger \<Rightarrow>
               Inr (ConsoleLogger_log message (s\<lparr>history := history s @ [Logged a message]\<rparr>))))"

text \<open>\<open>std::make_unique<ConsoleLogger>()\<close>: a new object at the address the allocator gives.\<close>

definition make_unique_ConsoleLogger :: "allocator \<Rightarrow> process \<Rightarrow> ILogger_ptr \<times> process" where
  "make_unique_ConsoleLogger new s =
     (let a = new (map fst (heap s))
      in (Some a, s\<lparr>heap := (a, ConsoleLogger) # heap s\<rparr>))"

text \<open>
  \<open>auto createDefaultLogger() -> std::unique_ptr<ILogger> { return std::make_unique<ConsoleLogger>(); }\<close>
  The result type has the error channel of the declaration (\<open>## Throws\<close>).
\<close>

definition createDefaultLogger :: "allocator \<Rightarrow> process \<Rightarrow> error + (ILogger_ptr \<times> process)" where
  "createDefaultLogger new s =
     (case make_unique_ConsoleLogger new s of
        (p, s') \<Rightarrow> Inr (p, s'\<lparr>history := history s' @ [Created p]\<rparr>))"

text \<open>
  The destructor of the \<open>std::unique_ptr\<close> (and \<open>reset()\<close>): the owned object, if any, is
  destroyed. \<open>~ILogger()\<close> is defaulted and writes nothing.
\<close>

definition unique_ptr_reset :: "ILogger_ptr \<Rightarrow> process \<Rightarrow> process" where
  "unique_ptr_reset p s =
     (case p of
        None \<Rightarrow> s
      | Some a \<Rightarrow> s\<lparr>heap := filter (\<lambda>e. fst e \<noteq> a) (heap s),
                     history := history s @ [Destroyed a]\<rparr>)"

section \<open>The entry point (main.cpp)\<close>

text \<open>\<open>EXIT_SUCCESS\<close> of \<open><cstdlib>\<close>: the status of a successful termination, 0.\<close>

definition EXIT_SUCCESS :: int where
  "EXIT_SUCCESS = 0"

text \<open>
  \<open>main\<close>: the factory is called once, \<open>log\<close> three times, and \<open>EXIT_SUCCESS\<close> is returned;
  the logger is destroyed when its scope ends. An exception leaves \<open>main\<close> as it is
  raised: there is no handler.
\<close>

definition main :: "allocator \<Rightarrow> process \<Rightarrow> error + (int \<times> process)" where
  "main new s =
     (case createDefaultLogger new s of
        Inl e \<Rightarrow> Inl e
      | Inr (logger, s1) \<Rightarrow>
     (case ILogger_log logger ''Application started'' s1 of
        Inl e \<Rightarrow> Inl e
      | Inr s2 \<Rightarrow>
     (case ILogger_log logger ''Hello from cpp-app-template!'' s2 of
        Inl e \<Rightarrow> Inl e
      | Inr s3 \<Rightarrow>
     (case ILogger_log logger ''Application finished'' s3 of
        Inl e \<Rightarrow> Inl e
      | Inr s4 \<Rightarrow> Inr (EXIT_SUCCESS, unique_ptr_reset logger s4)))))"

text \<open>
  A run of the program. The operating system starts the process with an argument vector
  and an environment; \<open>main()\<close> declares no parameter and the program never reads the
  environment, so neither reaches \<open>main\<close>. What a run shows is the content of standard
  output and the exit status; an exception that leaves \<open>main\<close> ends the process
  abnormally.
\<close>

datatype outcome = Exited string int | Terminated error

definition run_process :: "string list \<Rightarrow> (string \<times> string) list \<Rightarrow> allocator \<Rightarrow> outcome" where
  "run_process argv environ new =
     (case main new process_start of
        Inl e \<Rightarrow> Terminated e
      | Inr (status, s) \<Rightarrow> Exited (cout s) status)"

section \<open>Sequences of calls (the tests)\<close>

text \<open>
  \<open>for (const auto &message : messages) { logger().log(message); }\<close>
  (\<open>AppIntTest.cpp\<close>, \<open>ScenarioMessageSequence\<close>): the messages are logged in order through
  one logger; an error ends the loop.
\<close>

fun log_all :: "ILogger_ptr \<Rightarrow> string list \<Rightarrow> process \<Rightarrow> error + process" where
  "log_all p [] s = Inr s"
| "log_all p (m # ms) s =
     (case ILogger_log p m s of
        Inl e \<Rightarrow> Inl e
      | Inr s' \<Rightarrow> log_all p ms s')"

text \<open>
  The factory called \<open>n\<close> times in sequence, every returned pointer kept
  (\<open>LoggerFactoryTest.cpp\<close>, \<open>CreateMultipleLoggerInstances\<close>, for \<open>n = 2\<close>).
\<close>

fun createDefaultLogger_times :: "allocator \<Rightarrow> nat \<Rightarrow> process \<Rightarrow> error + (ILogger_ptr list \<times> process)" where
  "createDefaultLogger_times new 0 s = Inr ([], s)"
| "createDefaultLogger_times new (Suc n) s =
     (case createDefaultLogger new s of
        Inl e \<Rightarrow> Inl e
      | Inr (p, s1) \<Rightarrow>
          (case createDefaultLogger_times new n s1 of
             Inl e \<Rightarrow> Inl e
           | Inr (ps, s2) \<Rightarrow> Inr (p # ps, s2)))"

text \<open>
  A sequence of calls of the repository's operations, as the test cases make them
  (\<open>AppIntTest.cpp\<close>, \<open>MultiComponentLoggingScenario\<close> and the fixtures' \<open>SetUp\<close> and
  \<open>TearDown\<close>): a call of the factory, a call of \<open>log\<close> through a pointer, and
  \<open>reset()\<close> of a pointer. Each step is the operation itself.
\<close>

datatype client_op =
    Call_createDefaultLogger
  | Call_log ILogger_ptr string
  | Call_reset ILogger_ptr

fun client_step :: "allocator \<Rightarrow> client_op \<Rightarrow> process \<Rightarrow> error + process" where
  "client_step new Call_createDefaultLogger s =
     (case createDefaultLogger new s of
        Inl e \<Rightarrow> Inl e
      | Inr (p, s') \<Rightarrow> Inr s')"
| "client_step new (Call_log p m) s = ILogger_log p m s"
| "client_step new (Call_reset p) s = Inr (unique_ptr_reset p s)"

fun client_run :: "allocator \<Rightarrow> client_op list \<Rightarrow> process \<Rightarrow> error + process" where
  "client_run new [] s = Inr s"
| "client_run new (x # xs) s =
     (case client_step new x s of
        Inl e \<Rightarrow> Inl e
      | Inr s' \<Rightarrow> client_run new xs s')"

section \<open>Notions the statements use\<close>

text \<open>A pointer is valid in a state when it is not null and owns an object of the store.\<close>

definition valid_logger :: "process \<Rightarrow> ILogger_ptr \<Rightarrow> bool" where
  "valid_logger s p =
     (case p of
        None \<Rightarrow> False
      | Some a \<Rightarrow> map_of (heap s) a = Some ConsoleLogger)"

text \<open>
  The guarantee of \<open>operator new\<close>: the address it returns is the address of no object
  that is alive.
\<close>

definition fresh :: "allocator \<Rightarrow> bool" where
  "fresh new = (\<forall>live. new live \<notin> set live)"

text \<open>An allocator for the concrete runs: one past the largest address in use.\<close>

definition next_addr :: allocator where
  "next_addr live = Suc (Max (insert 0 (set live)))"

text \<open>
  The lines of an output: every line feed ends a line; bytes after the last line feed
  are a last line that is not terminated.
\<close>

fun split_lines :: "string \<Rightarrow> string \<Rightarrow> string list" where
  "split_lines acc [] = (if acc = [] then [] else [acc])"
| "split_lines acc (c # cs) =
     (if c = CHR 0x0A then acc # split_lines [] cs else split_lines (acc @ [c]) cs)"

definition lines_of :: "string \<Rightarrow> string list" where
  "lines_of out = split_lines [] out"

text \<open>What a sequence of messages looks like on the console: each followed by a line feed.\<close>

definition terminated :: "string list \<Rightarrow> string" where
  "terminated ms = concat (map (\<lambda>m. m @ [CHR 0x0A]) ms)"

text \<open>The calls of the factory among the calls made.\<close>

fun factory_results :: "call list \<Rightarrow> ILogger_ptr list" where
  "factory_results [] = []"
| "factory_results (Created p # cs) = p # factory_results cs"
| "factory_results (c # cs) = factory_results cs"

section \<open>Basic facts\<close>

lemma createDefaultLogger_eq:
  "createDefaultLogger new s =
     Inr (Some (new (map fst (heap s))),
          s\<lparr>heap := (new (map fst (heap s)), ConsoleLogger) # heap s,
            history := history s @ [Created (Some (new (map fst (heap s))))]\<rparr>)"
  by (simp add: createDefaultLogger_def make_unique_ConsoleLogger_def Let_def)

lemma valid_logger_Some:
  "valid_logger s p \<longleftrightarrow> (\<exists>a. p = Some a \<and> map_of (heap s) a = Some ConsoleLogger)"
  by (cases p) (simp_all add: valid_logger_def)

lemma ILogger_log_valid:
  "valid_logger s (Some a) \<Longrightarrow>
     ILogger_log (Some a) m s =
       Inr (s\<lparr>cout := cout s @ m @ [CHR 0x0A], history := history s @ [Logged a m]\<rparr>)"
  by (simp add: valid_logger_def ILogger_log_def ConsoleLogger_log_def ostream_write_def
      ostream_put_def)

lemma map_of_ConsoleLogger:
  "map_of h a = Some ConsoleLogger \<longleftrightarrow> a \<in> fst ` set h"
proof
  assume "map_of h a = Some ConsoleLogger"
  then show "a \<in> fst ` set h"
    by (metis domI dom_map_of_conv_image_fst)
next
  assume "a \<in> fst ` set h"
  then obtain x where "map_of h a = Some x"
    by (metis domD dom_map_of_conv_image_fst)
  then show "map_of h a = Some ConsoleLogger"
    by (cases x) simp
qed

lemma log_all_valid:
  "valid_logger s (Some a) \<Longrightarrow>
     log_all (Some a) ms s =
       Inr (s\<lparr>cout := cout s @ terminated ms, history := history s @ map (Logged a) ms\<rparr>)"
proof (induction ms arbitrary: s)
  case Nil
  then show ?case by (simp add: terminated_def)
next
  case (Cons m ms)
  let ?t = "s\<lparr>cout := cout s @ m @ [CHR 0x0A], history := history s @ [Logged a m]\<rparr>"
  have "valid_logger ?t (Some a)"
    using Cons.prems by (simp add: valid_logger_def)
  from Cons.IH [OF this] Cons.prems show ?case
    by (simp add: ILogger_log_valid terminated_def)
qed

lemma split_lines_no_feed:
  "CHR 0x0A \<notin> set m \<Longrightarrow> split_lines acc (m @ CHR 0x0A # rest) = (acc @ m) # split_lines [] rest"
  by (induction m arbitrary: acc) auto

lemma lines_of_terminated:
  "\<forall>m\<in>set ms. CHR 0x0A \<notin> set m \<Longrightarrow> lines_of (terminated ms) = ms"
  by (induction ms) (simp_all add: lines_of_def terminated_def split_lines_no_feed)

lemma length_split_lines_append:
  "length (split_lines acc (xs @ CHR 0x0A # ys)) = Suc (count_list xs (CHR 0x0A)) + length (split_lines [] ys)"
  by (induction xs arbitrary: acc) auto

lemma length_lines_of_terminated:
  "length (lines_of (terminated ms)) = length ms + count_list (concat ms) (CHR 0x0A)"
  by (induction ms) (simp_all add: lines_of_def terminated_def length_split_lines_append)


lemma fresh_not_live:
  "fresh new \<Longrightarrow> new (map fst h) \<notin> fst ` set h"
  using fresh_def [of new] by (metis set_map)

lemma createDefaultLogger_keeps:
  "createDefaultLogger new s = Inr (p, s') \<Longrightarrow> valid_logger s q \<Longrightarrow> valid_logger s' q"
  by (auto simp: createDefaultLogger_eq valid_logger_def split: option.splits)

lemma createDefaultLogger_times_keeps:
  "createDefaultLogger_times new n s = Inr (ps, s') \<Longrightarrow> valid_logger s q \<Longrightarrow> valid_logger s' q"
proof (induction n arbitrary: s ps)
  case 0
  then show ?case by simp
next
  case (Suc n)
  then show ?case
    by (auto simp: createDefaultLogger_eq split: sum.splits prod.splits
        intro: createDefaultLogger_keeps [OF createDefaultLogger_eq])
qed

lemma createDefaultLogger_times_total:
  "\<exists>ps s'. createDefaultLogger_times new n s = Inr (ps, s')"
proof (induction n arbitrary: s)
  case 0
  show ?case by simp
next
  case (Suc n)
  obtain ps s' where
    "createDefaultLogger_times new n
       (s\<lparr>heap := (new (map fst (heap s)), ConsoleLogger) # heap s,
          history := history s @ [Created (Some (new (map fst (heap s))))]\<rparr>) = Inr (ps, s')"
    using Suc.IH by blast
  then show ?case by (simp add: createDefaultLogger_eq)
qed

lemma createDefaultLogger_times_valid:
  "createDefaultLogger_times new n s = Inr (ps, s') \<Longrightarrow>
     length ps = n \<and> (\<forall>p\<in>set ps. p \<noteq> None \<and> valid_logger s' p)"
proof (induction n arbitrary: s ps)
  case 0
  then show ?case by simp
next
  case (Suc n)
  let ?a = "new (map fst (heap s))"
  let ?s1 = "s\<lparr>heap := (?a, ConsoleLogger) # heap s, history := history s @ [Created (Some ?a)]\<rparr>"
  from Suc.prems obtain qs where
    run: "createDefaultLogger_times new n ?s1 = Inr (qs, s')" and ps: "ps = Some ?a # qs"
    by (auto simp: createDefaultLogger_eq split: sum.splits)
  have "valid_logger ?s1 (Some ?a)"
    by (simp add: valid_logger_def)
  then have "valid_logger s' (Some ?a)"
    using run createDefaultLogger_times_keeps by blast
  with Suc.IH [OF run] ps show ?case by simp
qed

lemma createDefaultLogger_times_fresh:
  "fresh new \<Longrightarrow> createDefaultLogger_times new n s = Inr (ps, s') \<Longrightarrow>
     distinct ps \<and> (\<forall>p\<in>set ps. \<not> valid_logger s p)"
proof (induction n arbitrary: s ps)
  case 0
  then show ?case by simp
next
  case (Suc n)
  let ?a = "new (map fst (heap s))"
  let ?s1 = "s\<lparr>heap := (?a, ConsoleLogger) # heap s, history := history s @ [Created (Some ?a)]\<rparr>"
  from Suc.prems obtain qs where
    run: "createDefaultLogger_times new n ?s1 = Inr (qs, s')" and ps: "ps = Some ?a # qs"
    by (auto simp: createDefaultLogger_eq split: sum.splits)
  from Suc.IH [OF Suc.prems(1) run]
  have d: "distinct qs" and later: "\<forall>p\<in>set qs. \<not> valid_logger ?s1 p"
    by simp_all
  have here: "valid_logger ?s1 (Some ?a)"
    by (simp add: valid_logger_def)
  then have "Some ?a \<notin> set qs"
    using later by blast
  moreover have "\<not> valid_logger s (Some ?a)"
    using Suc.prems(1) by (simp add: valid_logger_def map_of_ConsoleLogger fresh_not_live)
  moreover have "\<not> valid_logger s p" if "p \<in> set qs" for p
  proof
    assume "valid_logger s p"
    then have "valid_logger ?s1 p"
      by (auto simp: valid_logger_def split: option.splits)
    with later that show False by blast
  qed
  ultimately show ?case using d ps by simp
qed

lemma fresh_next_addr: "fresh next_addr"
proof -
  have "x \<le> Max (insert 0 (set live))" if "x \<in> set live" for x :: nat and live
    using that by (intro Max_ge) simp_all
  then have "Suc (Max (insert 0 (set live))) \<notin> set live" for live
    by (metis Suc_n_not_le_n)
  then show ?thesis by (simp add: fresh_def next_addr_def)
qed

lemma main_eq:
  "main new s = Inr (EXIT_SUCCESS,
     s\<lparr>cout := cout s @ terminated [''Application started'', ''Hello from cpp-app-template!'',
            ''Application finished''],
       heap := filter (\<lambda>e. fst e \<noteq> new (map fst (heap s))) (heap s),
       history := history s @ [Created (Some (new (map fst (heap s)))),
          Logged (new (map fst (heap s))) ''Application started'',
          Logged (new (map fst (heap s))) ''Hello from cpp-app-template!'',
          Logged (new (map fst (heap s))) ''Application finished'',
          Destroyed (new (map fst (heap s)))]\<rparr>)"
  by (simp add: main_def createDefaultLogger_eq ILogger_log_def ConsoleLogger_log_def
      ostream_write_def ostream_put_def unique_ptr_reset_def terminated_def)

lemma map_of_filter_fst:
  "map_of (filter (\<lambda>e. fst e \<noteq> x) h) y = (if y = x then None else map_of h y)"
  by (induction h) auto

lemma ILogger_log_error:
  "ILogger_log p m s = Inl e \<Longrightarrow> e = invalid_pointer"
  by (auto simp: ILogger_log_def split: option.splits ILogger_obj.splits)

lemma client_step_error:
  "client_step new x s = Inl e \<Longrightarrow> e \<noteq> runtime_error"
  by (cases x) (auto simp: createDefaultLogger_eq dest: ILogger_log_error)

lemma client_run_error:
  "client_run new ops s = Inl e \<Longrightarrow> e \<noteq> runtime_error"
proof (induction ops arbitrary: s)
  case Nil
  then show ?case by simp
next
  case (Cons x xs)
  show ?case
  proof (cases "client_step new x s")
    case (Inl e')
    with Cons.prems client_step_error [OF Inl] show ?thesis by simp
  next
    case (Inr s')
    with Cons.prems have "client_run new xs s' = Inl e" by simp
    then show ?thesis by (rule Cons.IH)
  qed
qed

section \<open>The claims\<close>

text \<open>
  Claim C1. A run of the entry point calls the factory exactly once and then \<open>log\<close>
  exactly three times, with "Application started", "Hello from cpp-app-template!" and
  "Application finished" in this order, through the logger the factory returned.
  Standard output then holds exactly these three lines in this order, each ended by a
  line feed, and the process exits with the success status. This holds whatever address
  the allocator hands out.
\<close>

theorem main_logs_three_lines:
  "\<exists>s'. main new process_start = Inr (EXIT_SUCCESS, s')
     \<and> factory_results (history s') = [Some (new [])]
     \<and> history s' =
         [Created (Some (new [])),
          Logged (new []) ''Application started'',
          Logged (new []) ''Hello from cpp-app-template!'',
          Logged (new []) ''Application finished'',
          Destroyed (new [])]
     \<and> cout s' = ''Application started'' @ [CHR 0x0A] @ ''Hello from cpp-app-template!'' @ [CHR 0x0A]
          @ ''Application finished'' @ [CHR 0x0A]
     \<and> lines_of (cout s') =
         [''Application started'', ''Hello from cpp-app-template!'', ''Application finished'']
     \<and> run_process argv environ new = Exited (cout s') EXIT_SUCCESS"
  by (simp add: main_eq run_process_def process_start_def terminated_def lines_of_def)

theorem main_logs_three_lines_witness:
  "run_process [''sampleApp''] [] next_addr =
     Exited (''Application started'' @ [CHR 0x0A] @ ''Hello from cpp-app-template!'' @ [CHR 0x0A]
          @ ''Application finished'' @ [CHR 0x0A]) 0"
  using main_logs_three_lines [of next_addr "[''sampleApp'']" "[]"]
  by (auto simp: EXIT_SUCCESS_def)

text \<open>
  Claim C2. For every message \<open>m\<close> (the empty one, one with line feeds inside, one with
  control characters: any byte sequence), \<open>log(m)\<close> through a valid console logger raises
  no error, and standard output afterwards is what it was before followed by the bytes
  of \<open>m\<close> and one line feed: the call adds exactly one line feed beyond those of \<open>m\<close>.
\<close>

theorem log_appends_one_terminator:
  assumes "valid_logger s p"
  shows "\<exists>s'. ILogger_log p m s = Inr s'
     \<and> cout s' = cout s @ m @ [CHR 0x0A]
     \<and> count_list (cout s') (CHR 0x0A) = count_list (cout s) (CHR 0x0A) + count_list m (CHR 0x0A) + 1"
proof -
  from assms obtain a where "p = Some a"
    by (auto simp: valid_logger_Some)
  with assms show ?thesis
    by (simp add: ILogger_log_valid)
qed

theorem log_appends_one_terminator_witness:
  "valid_logger \<lparr>cout = ''x'', heap = [(1, ConsoleLogger)], history = []\<rparr> (Some 1)
   \<and> (\<exists>s'. ILogger_log (Some 1) ''Line 1'' \<lparr>cout = ''x'', heap = [(1, ConsoleLogger)], history = []\<rparr> = Inr s'
        \<and> cout s' = ''xLine 1'' @ [CHR 0x0A])"
proof -
  have v: "valid_logger \<lparr>cout = ''x'', heap = [(1, ConsoleLogger)], history = []\<rparr> (Some 1)"
    by (simp add: valid_logger_def)
  show ?thesis
    using v log_appends_one_terminator [OF v, of "''Line 1''"] by auto
qed

text \<open>
  Claim C3. The factory never returns a null pointer: for every \<open>n\<close>, calling it \<open>n\<close>
  times in sequence succeeds and yields \<open>n\<close> pointers, none of them null, each owning a
  logger in the final state; with an allocator that keeps its guarantee they are \<open>n\<close>
  different instances.
\<close>

theorem factory_yields_valid_instances:
  "\<exists>ps s'. createDefaultLogger_times new n s = Inr (ps, s')
     \<and> length ps = n
     \<and> (\<forall>p\<in>set ps. p \<noteq> None \<and> valid_logger s' p)
     \<and> (fresh new \<longrightarrow> distinct ps)"
proof -
  obtain ps s' where run: "createDefaultLogger_times new n s = Inr (ps, s')"
    using createDefaultLogger_times_total by blast
  then show ?thesis
    using createDefaultLogger_times_valid [OF run] createDefaultLogger_times_fresh [OF _ run]
    by simp
qed

theorem factory_yields_valid_instances_witness:
  "fresh next_addr \<and> createDefaultLogger_times next_addr 3 process_start =
     Inr ([Some 1, Some 2, Some 3],
          \<lparr>cout = [], heap = [(3, ConsoleLogger), (2, ConsoleLogger), (1, ConsoleLogger)],
           history = [Created (Some 1), Created (Some 2), Created (Some 3)]\<rparr>)
   \<and> valid_logger \<lparr>cout = [], heap = [(3, ConsoleLogger), (2, ConsoleLogger), (1, ConsoleLogger)],
           history = [Created (Some 1), Created (Some 2), Created (Some 3)]\<rparr> (Some 2)
   \<and> distinct [Some (1::nat), Some 2, Some 3]"
proof -
  have run: "createDefaultLogger_times next_addr 3 process_start =
     Inr ([Some 1, Some 2, Some 3],
          \<lparr>cout = [], heap = [(3, ConsoleLogger), (2, ConsoleLogger), (1, ConsoleLogger)],
           history = [Created (Some 1), Created (Some 2), Created (Some 3)]\<rparr>)"
    by (simp add: numeral_3_eq_3 createDefaultLogger_eq process_start_def next_addr_def)
  show ?thesis
    using factory_yields_valid_instances [of next_addr 3 process_start] fresh_next_addr
    by (simp add: run)
qed

text \<open>
  Claim C4, as amended. Logging the messages \<open>m1, ..., mk\<close> in order through a valid
  console logger succeeds and appends to standard output \<open>m1\<close>, a line feed, ..., \<open>mk\<close>,
  a line feed, in this order. The number of lines of that output is \<open>k\<close> plus the number
  of line feeds inside the messages; when no message contains a line feed, the output
  lines are exactly \<open>m1, ..., mk\<close> in order.
\<close>

theorem log_all_writes_messages_in_order:
  assumes "valid_logger s p"
  shows "\<exists>s'. log_all p ms s = Inr s'
     \<and> cout s' = cout s @ terminated ms
     \<and> length (lines_of (terminated ms)) = length ms + count_list (concat ms) (CHR 0x0A)
     \<and> ((\<forall>m\<in>set ms. CHR 0x0A \<notin> set m) \<longrightarrow> lines_of (terminated ms) = ms)"
proof -
  from assms obtain a where "p = Some a"
    by (auto simp: valid_logger_Some)
  with assms show ?thesis
    by (simp add: log_all_valid length_lines_of_terminated lines_of_terminated)
qed

text \<open>The three-message scenario of \<open>AppIntTest.cpp\<close>.\<close>

theorem log_all_writes_messages_in_order_witness:
  "valid_logger \<lparr>cout = [], heap = [(1, ConsoleLogger)], history = []\<rparr> (Some 1)
   \<and> (\<exists>s'. log_all (Some 1) [''User login attempt'', ''Authentication success'', ''Session created'']
             \<lparr>cout = [], heap = [(1, ConsoleLogger)], history = []\<rparr> = Inr s'
        \<and> lines_of (cout s') = [''User login attempt'', ''Authentication success'', ''Session created''])"
proof -
  have v: "valid_logger \<lparr>cout = [], heap = [(1, ConsoleLogger)], history = []\<rparr> (Some 1)"
    by (simp add: valid_logger_def)
  show ?thesis
    using v log_all_writes_messages_in_order [OF v,
        of "[''User login attempt'', ''Authentication success'', ''Session created'']"]
    by auto
qed

text \<open>
  Claim C4 as stated fails for a message with a line feed inside, which the logger
  accepts and writes unchanged: the one message "Line 1\nLine 2" (a multi-line message
  as in \<open>LoggerFactoryTest.cpp\<close>) gives two output lines, "Line 1" and "Line 2", not one
  line that matches the message.
\<close>

theorem multi_line_message_counterexample:
  "createDefaultLogger next_addr process_start =
     Inr (Some 1, \<lparr>cout = [], heap = [(1, ConsoleLogger)], history = [Created (Some 1)]\<rparr>)
   \<and> log_all (Some 1) [''Line 1'' @ [CHR 0x0A] @ ''Line 2'']
       \<lparr>cout = [], heap = [(1, ConsoleLogger)], history = [Created (Some 1)]\<rparr> =
     Inr \<lparr>cout = ''Line 1'' @ [CHR 0x0A] @ ''Line 2'' @ [CHR 0x0A], heap = [(1, ConsoleLogger)],
          history = [Created (Some 1), Logged 1 (''Line 1'' @ [CHR 0x0A] @ ''Line 2'')]\<rparr>
   \<and> lines_of (''Line 1'' @ [CHR 0x0A] @ ''Line 2'' @ [CHR 0x0A]) = [''Line 1'', ''Line 2'']
   \<and> length (lines_of (''Line 1'' @ [CHR 0x0A] @ ''Line 2'' @ [CHR 0x0A])) \<noteq> length [''Line 1'' @ [CHR 0x0A] @ ''Line 2'']"
  by (simp add: createDefaultLogger_eq process_start_def next_addr_def ILogger_log_def
      ConsoleLogger_log_def ostream_write_def ostream_put_def lines_of_def)

text \<open>
  Claim C5. Let \<open>a\<close> be a logger obtained earlier and still owned, and \<open>b\<close> the result of
  a further call of the factory. Then \<open>a\<close> and \<open>b\<close> are different, and both are valid.
  They are independent: logging through one changes no logger object and leaves the other
  valid, and destroying one leaves the other valid. A logger object has no data member, so
  there is no state of an instance to share; both write to the one standard output of the
  process, where \<open>a.log(x)\<close> followed by \<open>b.log(y)\<close> appends the line \<open>x\<close> and then the
  line \<open>y\<close>.
\<close>

theorem factory_instances_distinct:
  assumes "fresh new" and "valid_logger s a" and "createDefaultLogger new s = Inr (b, s')"
  shows "a \<noteq> b \<and> valid_logger s' a \<and> valid_logger s' b
     \<and> (\<exists>t. ILogger_log a x s' = Inr t \<and> heap t = heap s' \<and> valid_logger t b
          \<and> (\<exists>u. ILogger_log b y t = Inr u \<and> heap u = heap s'
               \<and> cout u = cout s' @ x @ [CHR 0x0A] @ y @ [CHR 0x0A]))
     \<and> valid_logger (unique_ptr_reset a s') b \<and> \<not> valid_logger (unique_ptr_reset a s') a
     \<and> valid_logger (unique_ptr_reset b s') a \<and> \<not> valid_logger (unique_ptr_reset b s') b"
proof -
  let ?n = "new (map fst (heap s))"
  from assms(2) obtain k where a: "a = Some k" and k: "map_of (heap s) k = Some ConsoleLogger"
    by (auto simp: valid_logger_Some)
  from assms(3) have b: "b = Some ?n"
    and s': "s' = s\<lparr>heap := (?n, ConsoleLogger) # heap s, history := history s @ [Created (Some ?n)]\<rparr>"
    by (auto simp: createDefaultLogger_eq)
  have "k \<in> fst ` set (heap s)"
    using k by (simp add: map_of_ConsoleLogger)
  moreover have "?n \<notin> fst ` set (heap s)"
    by (rule fresh_not_live [OF assms(1)])
  ultimately have ne: "k \<noteq> ?n"
    by blast
  have va: "valid_logger s' a" and vb: "valid_logger s' b"
    using k ne by (simp_all add: a b s' valid_logger_def)
  have 1: "a \<noteq> b" using ne by (simp add: a b)
  have 2: "\<exists>t. ILogger_log a x s' = Inr t \<and> heap t = heap s' \<and> valid_logger t b
          \<and> (\<exists>u. ILogger_log b y t = Inr u \<and> heap u = heap s'
               \<and> cout u = cout s' @ x @ [CHR 0x0A] @ y @ [CHR 0x0A])"
    using k ne
    by (simp add: a b s' ILogger_log_def ConsoleLogger_log_def ostream_write_def ostream_put_def
        valid_logger_def)
  have 3: "valid_logger (unique_ptr_reset a s') b \<and> \<not> valid_logger (unique_ptr_reset a s') a"
    using k ne by (simp add: a b s' unique_ptr_reset_def valid_logger_def map_of_filter_fst)
  have 4: "valid_logger (unique_ptr_reset b s') a \<and> \<not> valid_logger (unique_ptr_reset b s') b"
    using k ne by (simp add: a b s' unique_ptr_reset_def valid_logger_def map_of_filter_fst)
  from 1 va vb 2 3 4 show ?thesis by blast
qed

theorem factory_instances_distinct_witness:
  "fresh next_addr
   \<and> valid_logger \<lparr>cout = [], heap = [(1, ConsoleLogger)], history = [Created (Some 1)]\<rparr> (Some 1)
   \<and> createDefaultLogger next_addr \<lparr>cout = [], heap = [(1, ConsoleLogger)], history = [Created (Some 1)]\<rparr> =
       Inr (Some 2, \<lparr>cout = [], heap = [(2, ConsoleLogger), (1, ConsoleLogger)],
                     history = [Created (Some 1), Created (Some 2)]\<rparr>)
   \<and> Some (1::nat) \<noteq> Some 2
   \<and> valid_logger \<lparr>cout = [], heap = [(2, ConsoleLogger), (1, ConsoleLogger)],
                     history = [Created (Some 1), Created (Some 2)]\<rparr> (Some 2)"
proof -
  let ?s = "\<lparr>cout = [], heap = [(1, ConsoleLogger)], history = [Created (Some 1)]\<rparr>"
  let ?s' = "\<lparr>cout = [], heap = [(2, ConsoleLogger), (1, ConsoleLogger)],
               history = [Created (Some 1), Created (Some 2)]\<rparr>"
  have v: "valid_logger ?s (Some 1)"
    by (simp add: valid_logger_def)
  have c: "createDefaultLogger next_addr ?s = Inr (Some 2, ?s')"
    by (simp add: createDefaultLogger_eq next_addr_def)
  show ?thesis
    using factory_instances_distinct [OF fresh_next_addr v c] fresh_next_addr v c by simp
qed

text \<open>
  Claim C6. The exit status is the success status on every run: from every state and for
  every allocator \<open>main\<close> returns \<open>EXIT_SUCCESS\<close>, which is 0, no exception leaves it, and
  a run of the process never ends abnormally, whatever its arguments and environment.
\<close>

theorem main_exits_with_success:
  "(\<exists>s'. main new s = Inr (EXIT_SUCCESS, s'))
   \<and> main new s \<noteq> Inl e
   \<and> (\<exists>out. run_process argv environ new = Exited out EXIT_SUCCESS)
   \<and> run_process argv environ new \<noteq> Terminated e
   \<and> EXIT_SUCCESS = 0"
  by (simp add: main_eq run_process_def EXIT_SUCCESS_def)

theorem main_exits_with_success_witness:
  "\<exists>out. run_process [''sampleApp'', ''--fail''] [(''HOME'', ''/root'')] next_addr = Exited out 0"
  using main_exits_with_success [where new = next_addr and s = process_start
      and argv = "[''sampleApp'', ''--fail'']" and environ = "[(''HOME'', ''/root'')]"]
  by (simp add: EXIT_SUCCESS_def)

text \<open>
  Claim C7. The factory never raises the error its declaration documents, nor any other:
  every call completes normally and returns a valid logger, in every state and for every
  allocator, also when it is called \<open>n\<close> times in sequence; and no sequence of calls of
  the interface ends with \<open>runtime_error\<close>.
\<close>

theorem factory_never_raises:
  "createDefaultLogger new s \<noteq> Inl e
   \<and> (\<exists>p s'. createDefaultLogger new s = Inr (p, s') \<and> valid_logger s' p)
   \<and> createDefaultLogger_times new n s \<noteq> Inl e
   \<and> client_run new ops s \<noteq> Inl runtime_error"
proof -
  have "createDefaultLogger_times new n s \<noteq> Inl e"
    using createDefaultLogger_times_total [of new n s] by auto
  moreover have "client_run new ops s \<noteq> Inl runtime_error"
    using client_run_error by blast
  moreover have "\<exists>p s'. createDefaultLogger new s = Inr (p, s') \<and> valid_logger s' p"
    by (simp add: createDefaultLogger_eq valid_logger_def)
  ultimately show ?thesis
    by (simp add: createDefaultLogger_eq)
qed

theorem factory_never_raises_witness:
  "createDefaultLogger next_addr process_start \<noteq> Inl runtime_error
   \<and> createDefaultLogger_times next_addr 2 process_start \<noteq> Inl runtime_error"
  using factory_never_raises [where new = next_addr and s = process_start
      and e = runtime_error and n = 2 and ops = "[]"]
  by simp

text \<open>
  Claim C9. The program is deterministic: two runs, with whatever argument vectors,
  environments and allocators, have the same content of standard output and the same
  exit status.
\<close>

theorem runs_are_identical:
  "run_process argv environ new = run_process argv' environ' new'"
  by (simp add: run_process_def main_eq process_start_def)

theorem runs_are_identical_witness:
  "run_process [''sampleApp''] [] next_addr =
   run_process [''sampleApp'', ''-v''] [(''LANG'', ''C'')] (\<lambda>live. 7 + sum_list live)"
  using runs_are_identical [where argv = "[''sampleApp'']" and environ = "[]"
      and new = next_addr and argv' = "[''sampleApp'', ''-v'']"
      and environ' = "[(''LANG'', ''C'')]" and new' = "\<lambda>live. 7 + sum_list live"]
  by simp

text \<open>
  Claim C10. The logger does not validate, escape, filter or transform the message. For
  every byte sequence \<open>m\<close>, with no condition on its encoding, \<open>log(m)\<close> through a valid
  console logger leaves the earlier output as it is and writes after it the bytes of \<open>m\<close>,
  byte for byte, and then the line feed.
\<close>

theorem log_writes_bytes_verbatim:
  assumes "valid_logger s p"
  shows "\<exists>s'. ILogger_log p m s = Inr s'
     \<and> length (cout s') = length (cout s) + length m + 1
     \<and> take (length (cout s)) (cout s') = cout s
     \<and> take (length m) (drop (length (cout s)) (cout s')) = m
     \<and> (\<forall>i<length m. cout s' ! (length (cout s) + i) = m ! i)
     \<and> cout s' ! (length (cout s) + length m) = CHR 0x0A"
proof -
  from assms obtain a where "p = Some a"
    by (auto simp: valid_logger_Some)
  with assms show ?thesis
    by (simp add: ILogger_log_valid nth_append)
qed

theorem log_writes_bytes_verbatim_witness:
  "valid_logger \<lparr>cout = ''ok'', heap = [(1, ConsoleLogger)], history = []\<rparr> (Some 1)
   \<and> (\<exists>s'. ILogger_log (Some 1) [CHR 0xFF, CHR 0xC0, CHR 0x00, CHR 0x1B]
              \<lparr>cout = ''ok'', heap = [(1, ConsoleLogger)], history = []\<rparr> = Inr s'
        \<and> length (cout s') = 7
        \<and> take 2 (cout s') = ''ok''
        \<and> take 4 (drop 2 (cout s')) = [CHR 0xFF, CHR 0xC0, CHR 0x00, CHR 0x1B]
        \<and> cout s' ! 6 = CHR 0x0A)"
proof -
  have v: "valid_logger \<lparr>cout = ''ok'', heap = [(1, ConsoleLogger)], history = []\<rparr> (Some 1)"
    by (simp add: valid_logger_def)
  show ?thesis
    using v log_writes_bytes_verbatim [OF v, of "[CHR 0xFF, CHR 0xC0, CHR 0x00, CHR 0x1B]"]
    by (auto simp: eval_nat_numeral)
qed

end
